theory Spec2Isabelle
  imports Main "HOL-Library.Sublist"
begin

section \<open>Strings and values\<close>

text \<open>
  \<open>QString\<close> is modelled as \<open>string\<close>. Two characters of the source's literals are
  written by code here: the backslash that \<open>escapeLike\<close> inserts and that the
  \<open>ESCAPE\<close> clause names, and the apostrophes around it in that clause.
\<close>

definition backslash :: char where
  "backslash = CHR 0x5C"

definition apostrophe :: char where
  "apostrophe = CHR 0x27"

text \<open>
  \<open>QString::replace(before, after)\<close> with a one-character \<open>before\<close>: every occurrence
  of the character is replaced, scanning left to right; the inserted text is not scanned
  again.
\<close>

fun replace :: "char \<Rightarrow> string \<Rightarrow> string \<Rightarrow> string" where
  "replace b a [] = []"
| "replace b a (c # cs) = (if c = b then a @ replace b a cs else c # replace b a cs)"

text \<open>\<open>QStringList::join(separator)\<close>.\<close>

fun join :: "'a list \<Rightarrow> 'a list list \<Rightarrow> 'a list" where
  "join sep [] = []"
| "join sep [x] = x"
| "join sep (x # y # ys) = x @ sep @ join sep (y # ys)"

text \<open>
  \<open>QVariant\<close>, with the kinds of value the predicate algebra is handed: no value, a
  boolean, an integer, a text, a sequence of values.
\<close>

datatype QVariant =
    Invalid
  | VBool bool
  | VInt int
  | VString string
  | VList "QVariant list"

fun decimal :: "nat \<Rightarrow> string" where
  "decimal n =
     (if n < 10 then [char_of (48 + n)]
      else decimal (n div 10) @ [char_of (48 + n mod 10)])"

declare decimal.simps [simp del]

definition toLower :: "string \<Rightarrow> string" where
  "toLower s =
     map (\<lambda>c. if 65 \<le> (of_char c :: nat) \<and> (of_char c :: nat) \<le> 90
               then char_of ((of_char c :: nat) + 32) else c) s"

text \<open>\<open>QVariant::toString\<close>: the text itself, a number in decimal, \<open>true\<close>/\<open>false\<close>;
  empty for no value and for a sequence.\<close>

fun toString :: "QVariant \<Rightarrow> string" where
  "toString (VString s) = s"
| "toString (VInt i) = (if i < 0 then CHR ''-'' # decimal (nat (- i)) else decimal (nat i))"
| "toString (VBool b) = (if b then ''true'' else ''false'')"
| "toString Invalid = []"
| "toString (VList xs) = []"

text \<open>\<open>QVariant::toBool\<close>: a number is true when it is not zero, a text when its
  lower-case form is none of the empty text, \<open>0\<close> and \<open>false\<close>.\<close>

fun toBool :: "QVariant \<Rightarrow> bool" where
  "toBool (VBool b) = b"
| "toBool (VInt i) = (i \<noteq> 0)"
| "toBool (VString s) = (\<not> (toLower s = [] \<or> toLower s = ''0'' \<or> toLower s = ''false''))"
| "toBool Invalid = False"
| "toBool (VList xs) = False"

text \<open>\<open>QVariant::toList\<close>: the sequence, and the empty sequence for any other kind.\<close>

fun toList :: "QVariant \<Rightarrow> QVariant list" where
  "toList (VList xs) = xs"
| "toList v = []"

section \<open>escapeLike\<close>

definition escapeLike :: "string \<Rightarrow> string" where
  "escapeLike data0 =
     (let escaped = data0;
          escaped = replace (CHR ''%'') [backslash, CHR ''%''] escaped;
          escaped = replace (CHR ''_'') [backslash, CHR ''_''] escaped
      in escaped)"

section \<open>The predicate tree\<close>

text \<open>
  \<open>QDjangoWhere::Operation\<close>. The source's \<open>None\<close> is \<open>None_op\<close> here (the name is
  taken by the option type).
\<close>

datatype Operation =
    None_op
  | Equals
  | IEquals
  | NotEquals
  | INotEquals
  | GreaterThan
  | LessThan
  | GreaterOrEquals
  | LessOrEquals
  | StartsWith
  | IStartsWith
  | EndsWith
  | IEndsWith
  | Contains
  | IContains
  | IsIn
  | IsNull

datatype CombineType = NoCombine | AndCombine | OrCombine

text \<open>
  Modelled from the spec: the enumeration \<open>QDjangoDatabase::DatabaseType\<close> is declared
  in \<open>QDjango.h\<close>, which is not among the sources. \<open>sql\<close> tests it against
  \<open>MySqlServer\<close>, \<open>SQLite\<close> and \<open>PostgreSQL\<close>; the spec's generic dialect, which takes
  the remaining branch of each test, is \<open>UnknownDB\<close>.
\<close>

datatype DatabaseType = UnknownDB | MySqlServer | PostgreSQL | SQLite

text \<open>
  \<open>QDjangoWherePrivate\<close>: the fields the source reads and writes through \<open>d\<close>.

  Modelled from the spec: the class declarations are in \<open>QDjangoWhere.h\<close> and
  \<open>QDjangoWhere_p.h\<close>, which are not among the sources. The spec describes a predicate
  as an immutable value: an operation that writes through \<open>result.d\<close> writes to the
  result's own copy and leaves the operand as it was. A predicate is therefore a value of
  a datatype, and each operator returns a new value.
\<close>

datatype QDjangoWhere =
  Where (key: string) (operation: Operation) (data: QVariant)
        (combine: CombineType) (negate: bool) (children: "QDjangoWhere list")

text \<open>The constructor of \<open>QDjangoWherePrivate\<close> and the default constructor of
  \<open>QDjangoWhere\<close>.\<close>

definition QDjangoWhere_empty :: QDjangoWhere where
  "QDjangoWhere_empty = Where [] None_op Invalid NoCombine False []"

text \<open>\<open>QDjangoWhere(key, operation, value)\<close>.\<close>

definition QDjangoWhere_leaf :: "string \<Rightarrow> Operation \<Rightarrow> QVariant \<Rightarrow> QDjangoWhere" where
  "QDjangoWhere_leaf k op v = Where k op v NoCombine False []"

section \<open>Negation\<close>

text \<open>\<open>QDjangoWhere::operator!\<close>.\<close>

fun operator_not :: "QDjangoWhere \<Rightarrow> QDjangoWhere" where
  "operator_not (Where k op dat cb neg cs) =
     (if cs = [] then
        (case op of
           None_op \<Rightarrow> Where k op dat cb (\<not> neg) cs
         | IsIn \<Rightarrow> Where k op dat cb (\<not> neg) cs
         | StartsWith \<Rightarrow> Where k op dat cb (\<not> neg) cs
         | IStartsWith \<Rightarrow> Where k op dat cb (\<not> neg) cs
         | EndsWith \<Rightarrow> Where k op dat cb (\<not> neg) cs
         | IEndsWith \<Rightarrow> Where k op dat cb (\<not> neg) cs
         | Contains \<Rightarrow> Where k op dat cb (\<not> neg) cs
         | IContains \<Rightarrow> Where k op dat cb (\<not> neg) cs
         | IsNull \<Rightarrow> Where k op (VBool (\<not> toBool dat)) cb neg cs
         | Equals \<Rightarrow> Where k NotEquals dat cb neg cs
         | IEquals \<Rightarrow> Where k INotEquals dat cb neg cs
         | NotEquals \<Rightarrow> Where k Equals dat cb neg cs
         | INotEquals \<Rightarrow> Where k IEquals dat cb neg cs
         | GreaterThan \<Rightarrow> Where k LessOrEquals dat cb neg cs
         | LessThan \<Rightarrow> Where k GreaterOrEquals dat cb neg cs
         | GreaterOrEquals \<Rightarrow> Where k LessThan dat cb neg cs
         | LessOrEquals \<Rightarrow> Where k GreaterThan dat cb neg cs)
      else Where k op dat cb (\<not> neg) cs)"

section \<open>Sentinels and combination\<close>

definition isAll :: "QDjangoWhere \<Rightarrow> bool" where
  "isAll w = (combine w = NoCombine \<and> operation w = None_op \<and> negate w = False)"

definition isNone :: "QDjangoWhere \<Rightarrow> bool" where
  "isNone w = (combine w = NoCombine \<and> operation w = None_op \<and> negate w = True)"

text \<open>\<open>QDjangoWhere::operator&&\<close>: \<open>this\<close> is the first argument.\<close>

definition operator_and :: "QDjangoWhere \<Rightarrow> QDjangoWhere \<Rightarrow> QDjangoWhere" where
  "operator_and this other =
     (if isAll this \<or> isNone other then other
      else if isNone this \<or> isAll other then this
      else if combine this = AndCombine then
        Where (key this) (operation this) (data this) (combine this) (negate this)
              (children this @ [other])
      else Where [] None_op Invalid AndCombine False ([] @ [this] @ [other]))"

text \<open>\<open>QDjangoWhere::operator||\<close>.\<close>

definition operator_or :: "QDjangoWhere \<Rightarrow> QDjangoWhere \<Rightarrow> QDjangoWhere" where
  "operator_or this other =
     (if isAll this \<or> isNone other then this
      else if isNone this \<or> isAll other then other
      else if combine this = OrCombine then
        Where (key this) (operation this) (data this) (combine this) (negate this)
              (children this @ [other])
      else Where [] None_op Invalid OrCombine False ([] @ [this] @ [other]))"

section \<open>Binding\<close>

text \<open>
  \<open>QDjangoWhere::bindValues(query)\<close>. Of the query, only the sequence of values bound
  so far is modelled: \<open>addBindValue\<close> appends to it, and \<open>bindValues\<close> returns the
  sequence it leaves.
\<close>

type_synonym QDjangoQuery = "QVariant list"

definition addBindValue :: "QVariant \<Rightarrow> QDjangoQuery \<Rightarrow> QDjangoQuery" where
  "addBindValue v query = query @ [v]"

fun bindValues :: "QDjangoWhere \<Rightarrow> QDjangoQuery \<Rightarrow> QDjangoQuery" where
  "bindValues (Where k op dat cb neg cs) query =
     (if op = IsIn then fold addBindValue (toList dat) query
      else if op = IsNull then query
      else if op = StartsWith \<or> op = IStartsWith then
        addBindValue (VString (escapeLike (toString dat) @ ''%'')) query
      else if op = EndsWith \<or> op = IEndsWith then
        addBindValue (VString (''%'' @ escapeLike (toString dat))) query
      else if op = Contains \<or> op = IContains then
        addBindValue (VString (''%'' @ escapeLike (toString dat) @ ''%'')) query
      else if op \<noteq> None_op then addBindValue dat query
      else fold bindValues cs query)"

text \<open>The values a predicate binds on a fresh query.\<close>

definition boundValues :: "QDjangoWhere \<Rightarrow> QVariant list" where
  "boundValues w = bindValues w []"

section \<open>Rendering\<close>

text \<open>
  \<open>QDjangoWhere::sql(db)\<close>. The database enters only through
  \<open>QDjangoDatabase::databaseType(db)\<close>, so the model takes the type.
  \<open>QString("(%1)").arg(atom)\<close> puts \<open>atom\<close> in the place of \<open>%1\<close> of the pattern.
\<close>

text \<open>The block of the cases \<open>StartsWith\<close>, \<open>EndsWith\<close>, \<open>Contains\<close>.\<close>

definition sql_like :: "DatabaseType \<Rightarrow> string \<Rightarrow> bool \<Rightarrow> string" where
  "sql_like databaseType k neg =
     (let op = (if databaseType = MySqlServer
                then (if neg then ''NOT LIKE BINARY'' else ''LIKE BINARY'')
                else (if neg then ''NOT LIKE'' else ''LIKE''))
      in if databaseType = SQLite then
           k @ '' '' @ op @ '' ? ESCAPE '' @ [apostrophe, backslash, apostrophe]
         else k @ '' '' @ op @ '' ?'')"

text \<open>The block shared by the case-insensitive cases, which differ in \<open>op\<close> only.\<close>

definition sql_ilike :: "DatabaseType \<Rightarrow> string \<Rightarrow> string \<Rightarrow> string" where
  "sql_ilike databaseType k op =
     (if databaseType = SQLite then
        k @ '' '' @ op @ '' ? ESCAPE '' @ [apostrophe, backslash, apostrophe]
      else if databaseType = PostgreSQL then
        ''UPPER('' @ k @ ''::text) '' @ op @ '' UPPER(?)''
      else k @ '' '' @ op @ '' ?'')"

fun sql :: "DatabaseType \<Rightarrow> QDjangoWhere \<Rightarrow> string" where
  "sql databaseType (Where k op dat cb neg cs) =
     (case op of
        Equals \<Rightarrow> k @ '' = ?''
      | NotEquals \<Rightarrow> k @ '' != ?''
      | GreaterThan \<Rightarrow> k @ '' > ?''
      | LessThan \<Rightarrow> k @ '' < ?''
      | GreaterOrEquals \<Rightarrow> k @ '' >= ?''
      | LessOrEquals \<Rightarrow> k @ '' <= ?''
      | IsIn \<Rightarrow>
          (let bits = replicate (length (toList dat)) ''?''
           in if neg then k @ '' NOT IN ('' @ join '', '' bits @ '')''
              else k @ '' IN ('' @ join '', '' bits @ '')'')
      | IsNull \<Rightarrow> k @ (if toBool dat then '' IS NULL'' else '' IS NOT NULL'')
      | StartsWith \<Rightarrow> sql_like databaseType k neg
      | EndsWith \<Rightarrow> sql_like databaseType k neg
      | Contains \<Rightarrow> sql_like databaseType k neg
      | IStartsWith \<Rightarrow> sql_ilike databaseType k (if neg then ''NOT LIKE'' else ''LIKE'')
      | IEndsWith \<Rightarrow> sql_ilike databaseType k (if neg then ''NOT LIKE'' else ''LIKE'')
      | IContains \<Rightarrow> sql_ilike databaseType k (if neg then ''NOT LIKE'' else ''LIKE'')
      | IEquals \<Rightarrow> sql_ilike databaseType k (if neg then ''NOT LIKE'' else ''LIKE'')
      | INotEquals \<Rightarrow> sql_ilike databaseType k (if neg then ''LIKE'' else ''NOT LIKE'')
      | None_op \<Rightarrow>
          (if cb = NoCombine then (if neg then ''1 != 0'' else [])
           else
             (let bits = map (\<lambda>child.
                           let atom = sql databaseType child
                           in if children child = [] then atom
                              else ''('' @ atom @ '')'') cs;
                  combined =
                    (if cb = AndCombine then join '' AND '' bits
                     else if cb = OrCombine then join '' OR '' bits
                     else []);
                  combined = (if neg then ''NOT ('' @ combined @ '')'' else combined)
              in combined)))"

section \<open>Notions the properties are stated with\<close>

text \<open>The two sentinels: the empty predicate, and its negation.\<close>

definition All_predicate :: QDjangoWhere where
  "All_predicate = QDjangoWhere_empty"

definition None_constraint :: QDjangoWhere where
  "None_constraint = operator_not QDjangoWhere_empty"

text \<open>
  The predicates a client can build: the two constructors, closed under negation and
  the two combinators.
\<close>

inductive built :: "QDjangoWhere \<Rightarrow> bool" where
  built_empty: "built QDjangoWhere_empty"
| built_leaf: "built (QDjangoWhere_leaf k op v)"
| built_not: "built w \<Longrightarrow> built (operator_not w)"
| built_and: "built a \<Longrightarrow> built b \<Longrightarrow> built (operator_and a b)"
| built_or: "built a \<Longrightarrow> built b \<Longrightarrow> built (operator_or a b)"

text \<open>The shape every built predicate has: children only under a combination, which
  carries no operation of its own and has two operands or more.\<close>

fun wellformed :: "QDjangoWhere \<Rightarrow> bool" where
  "wellformed (Where k op dat cb neg cs) =
     ((if cb = NoCombine then cs = [] else op = None_op \<and> 2 \<le> length cs)
      \<and> list_all wellformed cs)"

text \<open>Every combination in the tree has two operands or more.\<close>

fun operands_ok :: "QDjangoWhere \<Rightarrow> bool" where
  "operands_ok (Where k op dat cb neg cs) =
     ((cb \<noteq> NoCombine \<or> cs \<noteq> [] \<longrightarrow> 2 \<le> length cs) \<and> list_all operands_ok cs)"

text \<open>No key in the tree holds the placeholder character.\<close>

fun keys_clean :: "QDjangoWhere \<Rightarrow> bool" where
  "keys_clean (Where k op dat cb neg cs) =
     (CHR ''?'' \<notin> set k \<and> list_all keys_clean cs)"

text \<open>The number of placeholders of a text.\<close>

definition placeholders :: "string \<Rightarrow> nat" where
  "placeholders s = length (filter (\<lambda>c. c = CHR ''?'') s)"

text \<open>
  Positional binding, as the execution layer does it: the i-th placeholder of the text
  takes the i-th value. The result is the text with each placeholder that got a value
  replaced by that value (\<open>Inr\<close>); the other characters stay (\<open>Inl\<close>).
\<close>

fun fill :: "string \<Rightarrow> 'v list \<Rightarrow> (char + 'v) list" where
  "fill [] vs = []"
| "fill (c # cs) vs =
     (if c = CHR ''?'' then
        (case vs of [] \<Rightarrow> Inl c # fill cs [] | v # vs' \<Rightarrow> Inr v # fill cs vs')
      else Inl c # fill cs vs)"

text \<open>
  The text of a predicate in which every leaf's placeholders hold that leaf's own
  values: a leaf is its own text filled with the values it binds itself, and a
  combination puts its operands together as \<open>sql\<close> does.
\<close>

fun sql_with_own_values :: "DatabaseType \<Rightarrow> QDjangoWhere \<Rightarrow> (char + QVariant) list" where
  "sql_with_own_values databaseType (Where k op dat cb neg cs) =
     (if op \<noteq> None_op \<or> cb = NoCombine then
        fill (sql databaseType (Where k op dat cb neg cs))
             (boundValues (Where k op dat cb neg cs))
      else
        (let bits = map (\<lambda>child.
                      let atom = sql_with_own_values databaseType child
                      in if children child = [] then atom
                         else map Inl ''('' @ atom @ map Inl '')'') cs;
             combined =
               (if cb = AndCombine then join (map Inl '' AND '') bits
                else join (map Inl '' OR '') bits)
         in if neg then map Inl ''NOT ('' @ combined @ map Inl '')'' else combined))"

text \<open>The escaping of wildcards as the specification words it: every \<open>%\<close> and every
  \<open>_\<close> gets a backslash in front of it, each character on its own.\<close>

definition escapeWildcards :: "string \<Rightarrow> string" where
  "escapeWildcards v =
     concat (map (\<lambda>c. if c = CHR ''%'' then [backslash, CHR ''%'']
                       else if c = CHR ''_'' then [backslash, CHR ''_'']
                       else [c]) v)"

section \<open>Lemmas about binding and escaping\<close>

lemma fold_addBindValue: "fold addBindValue xs query = query @ xs"
  by (induction xs arbitrary: query) (simp_all add: addBindValue_def)

lemma fold_bindValues:
  "(\<And>c q. c \<in> set cs \<Longrightarrow> bindValues c q = q @ boundValues c) \<Longrightarrow>
   fold bindValues cs query = query @ concat (map boundValues cs)"
  by (induction cs arbitrary: query) simp_all

text \<open>Binding only appends: what was bound before stays in front.\<close>

lemma bindValues_append: "bindValues w query = query @ boundValues w"
proof (induction w arbitrary: query)
  case (Where k op dat cb neg cs)
  have IH: "\<And>c q. c \<in> set cs \<Longrightarrow> bindValues c q = q @ boundValues c"
    using Where.IH by blast
  show ?case
    by (simp add: boundValues_def fold_addBindValue addBindValue_def
        fold_bindValues [OF IH, simplified boundValues_def])
qed

lemma escapeLike_escapeWildcards: "escapeLike v = escapeWildcards v"
proof -
  have "replace (CHR ''_'') [backslash, CHR ''_'']
          (replace (CHR ''%'') [backslash, CHR ''%''] v) = escapeWildcards v"
    by (induction v) (simp_all add: escapeWildcards_def backslash_def)
  then show ?thesis by (simp add: escapeLike_def)
qed

section \<open>The shape of built predicates\<close>

lemma wellformed_operator_not: "wellformed w \<Longrightarrow> wellformed (operator_not w)"
proof (cases w)
  case (Where k op dat cb neg cs)
  assume "wellformed w"
  with Where show ?thesis by (cases op) (auto split: if_splits)
qed

lemma wellformed_operator_and:
  "wellformed a \<Longrightarrow> wellformed b \<Longrightarrow> wellformed (operator_and a b)"
  by (cases a) (auto simp add: operator_and_def split: if_splits)

lemma wellformed_operator_or:
  "wellformed a \<Longrightarrow> wellformed b \<Longrightarrow> wellformed (operator_or a b)"
  by (cases a) (auto simp add: operator_or_def split: if_splits)

lemma built_wellformed: "built w \<Longrightarrow> wellformed w"
proof (induction rule: built.induct)
  case built_empty
  show ?case by (simp add: QDjangoWhere_empty_def)
next
  case (built_leaf k op v)
  show ?case by (simp add: QDjangoWhere_leaf_def)
next
  case (built_not w)
  then show ?case by (simp add: wellformed_operator_not)
next
  case (built_and a b)
  then show ?case by (simp add: wellformed_operator_and)
next
  case (built_or a b)
  then show ?case by (simp add: wellformed_operator_or)
qed

lemma wellformed_operands_ok: "wellformed w \<Longrightarrow> operands_ok w"
proof (induction w)
  case (Where k op dat cb neg cs)
  then have "list_all operands_ok cs"
    by (auto simp add: list_all_iff)
  with Where.prems show ?case by (auto split: if_splits)
qed

text \<open>
  C8. Every combination in a predicate built with the public operations has two
  operands or more, and so has every combination in its negation and in its
  conjunction or disjunction, on either side, with another built predicate. Rendering
  and binding are functions of the tree that return a text and a sequence of values:
  they leave the tree, and with it the invariant, as it is.
\<close>

theorem combinations_have_two_operands:
  "built w \<Longrightarrow>
   operands_ok w
   \<and> operands_ok (operator_not w)
   \<and> (\<forall>v. built v \<longrightarrow>
          operands_ok (operator_and w v) \<and> operands_ok (operator_and v w)
          \<and> operands_ok (operator_or w v) \<and> operands_ok (operator_or v w))"
  by (blast intro: wellformed_operands_ok built_wellformed built.intros)

theorem combinations_have_two_operands_witness:
  "built (operator_or (operator_and (QDjangoWhere_leaf ''a'' Equals (VInt 1))
                                    QDjangoWhere_empty)
                      (QDjangoWhere_leaf ''b'' LessThan (VInt 2)))
   \<and> operator_or (operator_and (QDjangoWhere_leaf ''a'' Equals (VInt 1)) QDjangoWhere_empty)
                  (QDjangoWhere_leaf ''b'' LessThan (VInt 2))
      = Where [] None_op Invalid OrCombine False
          [QDjangoWhere_leaf ''a'' Equals (VInt 1), QDjangoWhere_leaf ''b'' LessThan (VInt 2)]
   \<and> operands_ok (operator_or (operator_and (QDjangoWhere_leaf ''a'' Equals (VInt 1))
                                             QDjangoWhere_empty)
                               (QDjangoWhere_leaf ''b'' LessThan (VInt 2)))"
proof -
  have b: "built (operator_or (operator_and (QDjangoWhere_leaf ''a'' Equals (VInt 1))
                                            QDjangoWhere_empty)
                              (QDjangoWhere_leaf ''b'' LessThan (VInt 2)))"
    by (intro built.intros)
  show ?thesis
    using b combinations_have_two_operands [OF b]
    by (simp add: operator_or_def operator_and_def QDjangoWhere_leaf_def
        QDjangoWhere_empty_def isAll_def isNone_def)
qed

section \<open>Placeholders and values\<close>

lemma placeholders_Nil [simp]: "placeholders [] = 0"
  by (simp add: placeholders_def)

lemma placeholders_Cons [simp]:
  "placeholders (c # s) = (if c = CHR ''?'' then Suc (placeholders s) else placeholders s)"
  by (simp add: placeholders_def)

lemma placeholders_append [simp]: "placeholders (s @ t) = placeholders s + placeholders t"
  by (simp add: placeholders_def)

lemma placeholders_key: "CHR ''?'' \<notin> set k \<Longrightarrow> placeholders k = 0"
  by (induction k) auto

lemma placeholders_join:
  "placeholders sep = 0 \<Longrightarrow> placeholders (join sep bits) = sum_list (map placeholders bits)"
  by (induction sep bits rule: join.induct) simp_all

lemma placeholders_in_list: "placeholders (join '', '' (replicate n ''?'')) = n"
  by (simp add: placeholders_join) (induction n, simp_all)

lemma fill_literal: "placeholders s = 0 \<Longrightarrow> fill s vs = map Inl s"
  by (induction s) (simp_all split: if_splits)

text \<open>A text that takes exactly the values \<open>vs\<close> leaves the rest to what follows it.\<close>

lemma fill_append:
  "placeholders s = length vs \<Longrightarrow> fill (s @ t) (vs @ ws) = fill s vs @ fill t ws"
proof (induction s arbitrary: vs)
  case Nil
  then show ?case by simp
next
  case (Cons c s)
  show ?case
  proof (cases "c = CHR ''?''")
    case True
    with Cons.prems obtain v vs' where vs: "vs = v # vs'" and "placeholders s = length vs'"
      by (cases vs) simp_all
    with True Cons.IH [of vs'] show ?thesis by simp
  next
    case False
    with Cons show ?thesis by simp
  qed
qed

lemma fill_wrap:
  assumes "placeholders a = 0" and "placeholders b = 0" and "placeholders s = length vs"
  shows "fill (a @ s @ b) vs = map Inl a @ fill s vs @ map Inl b"
proof -
  have "fill (a @ (s @ b)) ([] @ vs) = fill a [] @ fill (s @ b) vs"
    using assms(1) by (intro fill_append) simp
  moreover have "fill (s @ b) (vs @ []) = fill s vs @ fill b []"
    using assms(3) by (intro fill_append) simp
  ultimately show ?thesis
    using assms(1,2) by (simp add: fill_literal)
qed

lemma fill_join:
  assumes "placeholders sep = 0"
    and "\<And>c. c \<in> set cs \<Longrightarrow> placeholders (f c) = length (g c) \<and> fill (f c) (g c) = h c"
  shows "fill (join sep (map f cs)) (concat (map g cs)) = join (map Inl sep) (map h cs)"
  using assms(2)
proof (induction cs rule: induct_list012)
  case 1
  show ?case by simp
next
  case (2 x)
  then show ?case by simp
next
  case (3 x y zs)
  have rest: "fill (join sep (map f (y # zs))) (concat (map g (y # zs)))
      = join (map Inl sep) (map h (y # zs))"
    using 3 by simp
  have "fill (f x @ (sep @ join sep (map f (y # zs)))) (g x @ concat (map g (y # zs)))
      = fill (f x) (g x) @ fill (sep @ join sep (map f (y # zs))) (concat (map g (y # zs)))"
    using 3(3) [of x] by (intro fill_append) simp
  moreover have "fill (sep @ join sep (map f (y # zs))) ([] @ concat (map g (y # zs)))
      = fill sep [] @ fill (join sep (map f (y # zs))) (concat (map g (y # zs)))"
    using assms(1) by (intro fill_append) simp
  ultimately show ?case
    using rest 3(3) [of x] assms(1) by (simp add: fill_literal)
qed

lemma boundValues_combination:
  "boundValues (Where k None_op dat cb neg cs) = concat (map boundValues cs)"
proof -
  have "fold bindValues cs [] = [] @ concat (map boundValues cs)"
    by (rule fold_bindValues) (rule bindValues_append)
  then show ?thesis by (simp add: boundValues_def)
qed

lemma leaf_aligned:
  "CHR ''?'' \<notin> set k \<Longrightarrow> op \<noteq> None_op \<or> cb = NoCombine \<Longrightarrow>
   placeholders (sql db (Where k op dat cb neg []))
     = length (boundValues (Where k op dat cb neg []))"
  by (cases op)
     (simp_all add: placeholders_key placeholders_in_list boundValues_def addBindValue_def
        fold_addBindValue sql_like_def sql_ilike_def apostrophe_def backslash_def Let_def)

lemma combination_aligned:
  assumes cb: "cb \<noteq> NoCombine"
    and IH: "\<And>c. c \<in> set cs \<Longrightarrow>
          placeholders (sql db c) = length (boundValues c)
          \<and> fill (sql db c) (boundValues c) = sql_with_own_values db c"
  shows "placeholders (sql db (Where k None_op dat cb neg cs))
           = length (boundValues (Where k None_op dat cb neg cs))
         \<and> fill (sql db (Where k None_op dat cb neg cs))
                (boundValues (Where k None_op dat cb neg cs))
           = sql_with_own_values db (Where k None_op dat cb neg cs)"
proof -
  let ?f = "\<lambda>child. if children child = [] then sql db child else ''('' @ sql db child @ '')''"
  let ?h = "\<lambda>child. if children child = [] then sql_with_own_values db child
                      else map Inl ''('' @ sql_with_own_values db child @ map Inl '')''"
  let ?sep = "if cb = AndCombine then '' AND '' else '' OR ''"
  let ?vs = "concat (map boundValues cs)"
  have sep: "placeholders ?sep = 0" by simp
  have each: "placeholders (?f c) = length (boundValues c) \<and> fill (?f c) (boundValues c) = ?h c"
    if "c \<in> set cs" for c
  proof (cases "children c = []")
    case True
    with IH [OF that] show ?thesis by simp
  next
    case False
    have "fill (''('' @ sql db c @ '')'') (boundValues c)
        = map Inl ''('' @ fill (sql db c) (boundValues c) @ map Inl '')''"
      using IH [OF that] by (intro fill_wrap) simp_all
    with False IH [OF that] show ?thesis by simp
  qed
  have count: "placeholders (join ?sep (map ?f cs)) = length ?vs"
  proof -
    have "map placeholders (map ?f cs) = map length (map boundValues cs)"
      using each by (simp del: placeholders_append placeholders_Cons)
    then show ?thesis
      by (simp only: placeholders_join [OF sep] length_concat)
  qed
  have filled: "fill (join ?sep (map ?f cs)) ?vs = join (map Inl ?sep) (map ?h cs)"
    using sep each by (rule fill_join)
  have rendered: "sql db (Where k None_op dat cb neg cs)
      = (if neg then ''NOT ('' @ join ?sep (map ?f cs) @ '')'' else join ?sep (map ?f cs))"
    using cb by (cases cb) (simp_all add: Let_def)
  have own: "sql_with_own_values db (Where k None_op dat cb neg cs)
      = (if neg then map Inl ''NOT ('' @ join (map Inl ?sep) (map ?h cs) @ map Inl '')''
         else join (map Inl ?sep) (map ?h cs))"
    using cb by (cases cb) (simp_all add: Let_def)
  have wrapped: "fill (''NOT ('' @ join ?sep (map ?f cs) @ '')'') ?vs
      = map Inl ''NOT ('' @ fill (join ?sep (map ?f cs)) ?vs @ map Inl '')''"
    using count by (intro fill_wrap) simp_all
  show ?thesis
    unfolding rendered own boundValues_combination
    using count filled wrapped by simp
qed

lemma wellformed_aligned:
  "wellformed w \<Longrightarrow> keys_clean w \<Longrightarrow>
   placeholders (sql db w) = length (boundValues w)
   \<and> fill (sql db w) (boundValues w) = sql_with_own_values db w"
proof (induction w)
  case (Where k op dat cb neg cs)
  show ?case
  proof (cases "op \<noteq> None_op \<or> cb = NoCombine")
    case True
    with Where.prems have cs: "cs = []" by (auto split: if_splits)
    from Where.prems have "CHR ''?'' \<notin> set k" by simp
    then have "placeholders (sql db (Where k op dat cb neg []))
        = length (boundValues (Where k op dat cb neg []))"
      using True by (rule leaf_aligned)
    with True cs show ?thesis by simp
  next
    case False
    then have op: "op = None_op" and cb: "cb \<noteq> NoCombine" by simp_all
    have "placeholders (sql db c) = length (boundValues c)
          \<and> fill (sql db c) (boundValues c) = sql_with_own_values db c"
      if "c \<in> set cs" for c
      using that Where.IH [of c] Where.prems by (simp add: list_all_iff)
    with cb show ?thesis unfolding op by (rule combination_aligned)
  qed
qed

text \<open>
  C1. For a predicate built with the public operations whose keys hold no \<open>?\<close>, and
  for every dialect: \<open>bindValues\<close> appends to the query the values \<open>boundValues\<close>,
  as many as the text of \<open>sql\<close> has placeholders; and binding these values to the
  placeholders by position, the first value to the first placeholder and so on, puts
  into the placeholders of every leaf the values that leaf binds itself, in their order.
\<close>

theorem placeholders_align_with_values:
  "built w \<Longrightarrow> keys_clean w \<Longrightarrow>
   bindValues w query = query @ boundValues w
   \<and> placeholders (sql db w) = length (boundValues w)
   \<and> fill (sql db w) (boundValues w) = sql_with_own_values db w"
  using wellformed_aligned [OF built_wellformed, of w db] bindValues_append [of w query]
  by simp

theorem placeholders_align_with_values_witness:
  "built (operator_or
           (operator_and (QDjangoWhere_leaf ''x'' Equals (VInt 1))
                         (QDjangoWhere_leaf ''y'' IsIn (VList [VInt 2, VInt 3])))
           (operator_not (QDjangoWhere_leaf ''n'' IStartsWith (VString ''a''))))
   \<and> keys_clean (operator_or
           (operator_and (QDjangoWhere_leaf ''x'' Equals (VInt 1))
                         (QDjangoWhere_leaf ''y'' IsIn (VList [VInt 2, VInt 3])))
           (operator_not (QDjangoWhere_leaf ''n'' IStartsWith (VString ''a''))))
   \<and> sql PostgreSQL (operator_or
           (operator_and (QDjangoWhere_leaf ''x'' Equals (VInt 1))
                         (QDjangoWhere_leaf ''y'' IsIn (VList [VInt 2, VInt 3])))
           (operator_not (QDjangoWhere_leaf ''n'' IStartsWith (VString ''a''))))
      = ''(x = ? AND y IN (?, ?)) OR UPPER(n::text) NOT LIKE UPPER(?)''
   \<and> bindValues (operator_or
           (operator_and (QDjangoWhere_leaf ''x'' Equals (VInt 1))
                         (QDjangoWhere_leaf ''y'' IsIn (VList [VInt 2, VInt 3])))
           (operator_not (QDjangoWhere_leaf ''n'' IStartsWith (VString ''a'')))) []
      = [VInt 1, VInt 2, VInt 3, VString ''a%'']"
proof -
  let ?w = "operator_or
           (operator_and (QDjangoWhere_leaf ''x'' Equals (VInt 1))
                         (QDjangoWhere_leaf ''y'' IsIn (VList [VInt 2, VInt 3])))
           (operator_not (QDjangoWhere_leaf ''n'' IStartsWith (VString ''a'')))"
  have b: "built ?w" by (intro built.intros)
  have c: "keys_clean ?w"
    by (simp add: operator_or_def operator_and_def QDjangoWhere_leaf_def isAll_def isNone_def)
  show ?thesis
    using b c placeholders_align_with_values [OF b c, of "[]" PostgreSQL]
    by (simp add: operator_or_def operator_and_def QDjangoWhere_leaf_def isAll_def isNone_def
        sql_ilike_def boundValues_def addBindValue_def escapeLike_def)
qed

section \<open>The sentinels\<close>

text \<open>
  C2. The empty predicate renders to the empty text on every dialect. Its negation,
  the predicate \<open>isNone\<close> recognises as the impossible constraint, renders on every
  dialect to the text \<open>1 != 0\<close>: a comparison of two different numbers for
  inequality, which holds on every row, where the claim asks for a condition that
  holds on none.
\<close>

theorem none_constraint_renders_true_condition:
  "isNone None_constraint \<and> sql db None_constraint = ''1 != 0''
   \<and> isAll All_predicate \<and> sql db All_predicate = []"
  by (simp add: None_constraint_def All_predicate_def QDjangoWhere_empty_def
      isNone_def isAll_def)

text \<open>
  C5. For every built predicate \<open>p\<close> and every dialect, measured by the text and the
  bound values: the conjunction of the empty predicate with \<open>p\<close> is \<open>p\<close>, the
  conjunction of the none-constraint with \<open>p\<close> is the none-constraint, the disjunction
  of the empty predicate with \<open>p\<close> is the empty predicate, and the disjunction of the
  none-constraint with \<open>p\<close> is \<open>p\<close>.
\<close>

theorem sentinels_identity_and_absorption:
  "built p \<Longrightarrow>
   sql db (operator_and All_predicate p) = sql db p
   \<and> boundValues (operator_and All_predicate p) = boundValues p
   \<and> sql db (operator_and None_constraint p) = sql db None_constraint
   \<and> boundValues (operator_and None_constraint p) = boundValues None_constraint
   \<and> sql db (operator_or All_predicate p) = sql db All_predicate
   \<and> boundValues (operator_or All_predicate p) = boundValues All_predicate
   \<and> sql db (operator_or None_constraint p) = sql db p
   \<and> boundValues (operator_or None_constraint p) = boundValues p"
proof -
  assume "built p"
  then have wf: "wellformed p" by (rule built_wellformed)
  show ?thesis
  proof (cases p)
    case (Where k op dat cb neg cs)
    with wf show ?thesis
      by (auto simp add: operator_and_def operator_or_def All_predicate_def
          None_constraint_def QDjangoWhere_empty_def isAll_def isNone_def boundValues_def)
  qed
qed

theorem sentinels_identity_and_absorption_witness:
  "built (operator_not (QDjangoWhere_leaf ''a'' Contains (VString ''x'')))
   \<and> operator_and All_predicate (operator_not (QDjangoWhere_leaf ''a'' Contains (VString ''x'')))
       = operator_not (QDjangoWhere_leaf ''a'' Contains (VString ''x''))
   \<and> sql SQLite (operator_and None_constraint
                    (operator_not (QDjangoWhere_leaf ''a'' Contains (VString ''x''))))
       = ''1 != 0''
   \<and> sql SQLite (operator_or All_predicate
                    (operator_not (QDjangoWhere_leaf ''a'' Contains (VString ''x''))))
       = []
   \<and> boundValues (operator_or None_constraint
                    (operator_not (QDjangoWhere_leaf ''a'' Contains (VString ''x''))))
       = [VString ''%x%'']"
proof -
  have b: "built (operator_not (QDjangoWhere_leaf ''a'' Contains (VString ''x'')))"
    by (intro built.intros)
  show ?thesis
    using b sentinels_identity_and_absorption [OF b, of SQLite]
    by (simp add: operator_or_def operator_and_def QDjangoWhere_leaf_def
        QDjangoWhere_empty_def isAll_def isNone_def All_predicate_def None_constraint_def
        boundValues_def addBindValue_def escapeLike_def)
qed

section \<open>Combination of a negated combination\<close>

text \<open>
  C3. \<open>operator&&\<close> tests the kind of its left operand and not its negation flag, so
  the negation of \<open>x AND y\<close>, combined with \<open>z\<close>, is not a combination of two
  operands: \<open>z\<close> is appended under the negation, and the text is the negation of
  \<open>x AND y AND z\<close>. \<open>operator||\<close> does the same with its kind.
\<close>

theorem negated_combination_is_extended:
  "operator_and
     (operator_not (operator_and (QDjangoWhere_leaf ''x'' Equals (VInt 1))
                                 (QDjangoWhere_leaf ''y'' Equals (VInt 2))))
     (QDjangoWhere_leaf ''z'' Equals (VInt 3))
   = Where [] None_op Invalid AndCombine True
       [QDjangoWhere_leaf ''x'' Equals (VInt 1), QDjangoWhere_leaf ''y'' Equals (VInt 2),
        QDjangoWhere_leaf ''z'' Equals (VInt 3)]
   \<and> sql UnknownDB
        (operator_and
          (operator_not (operator_and (QDjangoWhere_leaf ''x'' Equals (VInt 1))
                                      (QDjangoWhere_leaf ''y'' Equals (VInt 2))))
          (QDjangoWhere_leaf ''z'' Equals (VInt 3)))
      = ''NOT (x = ? AND y = ? AND z = ?)''
   \<and> operator_or
        (operator_not (operator_or (QDjangoWhere_leaf ''x'' Equals (VInt 1))
                                   (QDjangoWhere_leaf ''y'' Equals (VInt 2))))
        (QDjangoWhere_leaf ''z'' Equals (VInt 3))
      = Where [] None_op Invalid OrCombine True
          [QDjangoWhere_leaf ''x'' Equals (VInt 1), QDjangoWhere_leaf ''y'' Equals (VInt 2),
           QDjangoWhere_leaf ''z'' Equals (VInt 3)]
   \<and> sql UnknownDB
        (operator_or
          (operator_not (operator_or (QDjangoWhere_leaf ''x'' Equals (VInt 1))
                                     (QDjangoWhere_leaf ''y'' Equals (VInt 2))))
          (QDjangoWhere_leaf ''z'' Equals (VInt 3)))
      = ''NOT (x = ? OR y = ? OR z = ?)''"
  by (simp add: operator_and_def operator_or_def QDjangoWhere_leaf_def isAll_def isNone_def)

section \<open>Negation of leaves\<close>

text \<open>
  C4. Negating a leaf twice changes neither its text, on any dialect, nor the values
  it binds, whatever its operation. A leaf is a predicate without children, the test
  \<open>operator!\<close> itself makes.
\<close>

theorem double_negation_of_leaf:
  "children w = [] \<Longrightarrow>
   sql db (operator_not (operator_not w)) = sql db w
   \<and> bindValues (operator_not (operator_not w)) query = bindValues w query"
proof (cases w)
  case (Where k op dat cb neg cs)
  assume "children w = []"
  with Where show ?thesis by (cases op) simp_all
qed

theorem double_negation_of_leaf_witness:
  "children (QDjangoWhere_leaf ''age'' IsNull (VInt 5)) = []
   \<and> sql SQLite (operator_not (operator_not (QDjangoWhere_leaf ''age'' IsNull (VInt 5))))
       = sql SQLite (QDjangoWhere_leaf ''age'' IsNull (VInt 5))
   \<and> operator_not (operator_not (QDjangoWhere_leaf ''age'' IsNull (VInt 5)))
       = QDjangoWhere_leaf ''age'' IsNull (VBool True)"
  using double_negation_of_leaf [of "QDjangoWhere_leaf ''age'' IsNull (VInt 5)" SQLite "[]"]
  by (simp add: QDjangoWhere_leaf_def)

section \<open>Wildcards\<close>

text \<open>
  C6. A \<open>Contains\<close> leaf on a text \<open>v\<close> binds one value, the escaped \<open>v\<close> between
  two \<open>%\<close>; a \<open>StartsWith\<close> leaf binds the escaped \<open>v\<close> followed by \<open>%\<close>, an
  \<open>EndsWith\<close> leaf \<open>%\<close> followed by the escaped \<open>v\<close>. The escaped \<open>v\<close> is \<open>v\<close>
  with a backslash in front of every \<open>%\<close> and every \<open>_\<close>; the wildcards added around
  it are not escaped. The text \<open>50%_off\<close> is bound as \<open>%50\<close>, backslash, \<open>%\<close>,
  backslash, \<open>_off%\<close>.
\<close>

theorem wildcards_escaped_before_wrapping:
  "bindValues (QDjangoWhere_leaf k Contains (VString v)) query
     = query @ [VString (''%'' @ escapeWildcards v @ ''%'')]
   \<and> bindValues (QDjangoWhere_leaf k StartsWith (VString v)) query
     = query @ [VString (escapeWildcards v @ ''%'')]
   \<and> bindValues (QDjangoWhere_leaf k EndsWith (VString v)) query
     = query @ [VString (''%'' @ escapeWildcards v)]
   \<and> bindValues (QDjangoWhere_leaf k Contains (VString ''50%_off'')) []
     = [VString (''%50'' @ [backslash] @ ''%'' @ [backslash] @ ''_off%'')]"
  by (simp add: QDjangoWhere_leaf_def addBindValue_def escapeLike_escapeWildcards)
     (simp add: escapeWildcards_def)

theorem wildcards_escaped_before_wrapping_witness:
  "bindValues (QDjangoWhere_leaf ''name'' StartsWith (VString ''a_b'')) [VInt 7]
     = [VInt 7, VString [CHR ''a'', CHR 0x5C, CHR ''_'', CHR ''b'', CHR ''%'']]"
  using wildcards_escaped_before_wrapping [of "''name''" "''a_b''" "[VInt 7]"]
  by (simp add: escapeWildcards_def backslash_def)

section \<open>Case-insensitive containment per dialect\<close>

lemma not_sublist_append:
  assumes "\<not> sublist xs ys" and "\<not> sublist xs (c # zs)" and "c \<notin> set xs"
  shows "\<not> sublist xs (ys @ c # zs)"
proof
  assume "sublist xs (ys @ c # zs)"
  then consider "sublist xs ys" | "sublist xs (c # zs)"
    | xs1 xs2 where "xs = xs1 @ xs2" "suffix xs1 ys" "prefix xs2 (c # zs)"
    by (auto simp add: sublist_append)
  then show False
  proof cases
    case 1
    with assms show False by simp
  next
    case 2
    with assms show False by simp
  next
    case 3
    show False
    proof (cases xs2)
      case Nil
      with 3 have "suffix xs ys" by simp
      then have "sublist xs ys" by (rule suffix_imp_sublist)
      with assms show False by simp
    next
      case (Cons d ds)
      with 3 have "d = c" by simp
      with Cons 3 have "c \<in> set xs" by simp
      with assms show False by simp
    qed
  qed
qed

text \<open>
  C7, as stated, fails for a key that holds the word itself: the text starts with the
  key as it is, so the text of an \<open>IContains\<close> leaf on the column \<open>UPPER_LIMIT\<close>
  contains \<open>UPPER\<close> on SQLite, and on MySQL too.
\<close>

theorem icontains_key_holds_the_word:
  "sublist ''UPPER''
     (sql SQLite (QDjangoWhere_leaf ''UPPER_LIMIT'' IContains (VString ''x'')))
   \<and> sublist ''UPPER''
     (sql MySqlServer (QDjangoWhere_leaf ''UPPER_LIMIT'' IContains (VString ''x'')))"
  by (simp add: QDjangoWhere_leaf_def sql_ilike_def sublist_Cons_right)

text \<open>
  C7, amended. For every key and every text value, the text of an \<open>IContains\<close> leaf
  is, on PostgreSQL, \<open>UPPER(\<close> applied to the key cast to text, \<open>LIKE\<close>, and
  \<open>UPPER(\<close> applied to the placeholder; on SQLite it is the key, \<open>LIKE\<close>, the
  placeholder and the \<open>ESCAPE\<close> clause naming the backslash, which it therefore
  contains; on MySQL it is the key, \<open>LIKE\<close> and the placeholder and nothing more, so no
  \<open>ESCAPE\<close> clause follows the placeholder. For every key that does not itself
  contain \<open>UPPER\<close>, neither the text on SQLite nor the text on MySQL contains
  \<open>UPPER\<close>.
\<close>

theorem icontains_per_dialect:
  "sql PostgreSQL (QDjangoWhere_leaf k IContains (VString v))
     = ''UPPER('' @ k @ ''::text) LIKE UPPER(?)''
   \<and> sql SQLite (QDjangoWhere_leaf k IContains (VString v))
     = k @ '' LIKE ? ESCAPE '' @ [apostrophe, backslash, apostrophe]
   \<and> sublist (''ESCAPE '' @ [apostrophe, backslash, apostrophe])
         (sql SQLite (QDjangoWhere_leaf k IContains (VString v)))
   \<and> sql MySqlServer (QDjangoWhere_leaf k IContains (VString v)) = k @ '' LIKE ?''
   \<and> \<not> suffix (''ESCAPE '' @ [apostrophe, backslash, apostrophe])
         (sql MySqlServer (QDjangoWhere_leaf k IContains (VString v)))
   \<and> (\<not> sublist ''UPPER'' k \<longrightarrow>
        \<not> sublist ''UPPER'' (sql SQLite (QDjangoWhere_leaf k IContains (VString v)))
        \<and> \<not> sublist ''UPPER''
             (sql MySqlServer (QDjangoWhere_leaf k IContains (VString v))))"
proof -
  have lite: "sql SQLite (QDjangoWhere_leaf k IContains (VString v))
      = k @ CHR '' '' # (''LIKE ? ESCAPE '' @ [apostrophe, backslash, apostrophe])"
    by (simp add: QDjangoWhere_leaf_def sql_ilike_def)
  have my: "sql MySqlServer (QDjangoWhere_leaf k IContains (VString v))
      = k @ CHR '' '' # ''LIKE ?''"
    by (simp add: QDjangoWhere_leaf_def sql_ilike_def)
  have pg: "sql PostgreSQL (QDjangoWhere_leaf k IContains (VString v))
      = ''UPPER('' @ k @ ''::text) LIKE UPPER(?)''"
    by (simp add: QDjangoWhere_leaf_def sql_ilike_def)
  have esc: "sublist (''ESCAPE '' @ [apostrophe, backslash, apostrophe])
      (sql SQLite (QDjangoWhere_leaf k IContains (VString v)))"
  proof -
    have "sql SQLite (QDjangoWhere_leaf k IContains (VString v))
        = (k @ '' LIKE ? '') @ (''ESCAPE '' @ [apostrophe, backslash, apostrophe])"
      by (simp add: lite)
    then show ?thesis by (simp only: sublist_append_leftI)
  qed
  have no_clause_my: "\<not> suffix (''ESCAPE '' @ [apostrophe, backslash, apostrophe])
      (sql MySqlServer (QDjangoWhere_leaf k IContains (VString v)))"
  proof
    assume "suffix (''ESCAPE '' @ [apostrophe, backslash, apostrophe])
      (sql MySqlServer (QDjangoWhere_leaf k IContains (VString v)))"
    then obtain ps where
      "k @ CHR '' '' # ''LIKE ?'' = ps @ ''ESCAPE '' @ [apostrophe, backslash, apostrophe]"
      unfolding my by (auto simp add: suffix_def)
    then have "last (k @ CHR '' '' # ''LIKE ?'')
        = last (ps @ ''ESCAPE '' @ [apostrophe, backslash, apostrophe])"
      by simp
    then show False by (simp add: apostrophe_def)
  qed
  have no_upper_lite:
    "\<not> sublist ''UPPER'' (sql SQLite (QDjangoWhere_leaf k IContains (VString v)))"
    if "\<not> sublist ''UPPER'' k"
    unfolding lite using that
    by (rule not_sublist_append)
       (simp_all add: sublist_Cons_right apostrophe_def backslash_def)
  have no_upper_my:
    "\<not> sublist ''UPPER'' (sql MySqlServer (QDjangoWhere_leaf k IContains (VString v)))"
    if "\<not> sublist ''UPPER'' k"
    unfolding my using that
    by (rule not_sublist_append) (simp_all add: sublist_Cons_right)
  from pg lite esc my no_clause_my no_upper_lite no_upper_my show ?thesis by simp
qed

theorem icontains_per_dialect_witness:
  "\<not> sublist ''UPPER'' ''ESCAPE_CODE''
   \<and> sql PostgreSQL (QDjangoWhere_leaf ''ESCAPE_CODE'' IContains (VString ''x''))
       = ''UPPER(ESCAPE_CODE::text) LIKE UPPER(?)''
   \<and> sql SQLite (QDjangoWhere_leaf ''ESCAPE_CODE'' IContains (VString ''x''))
       = ''ESCAPE_CODE LIKE ? ESCAPE '' @ [CHR 0x27, CHR 0x5C, CHR 0x27]
   \<and> \<not> sublist ''UPPER''
        (sql SQLite (QDjangoWhere_leaf ''ESCAPE_CODE'' IContains (VString ''x'')))
   \<and> sql MySqlServer (QDjangoWhere_leaf ''ESCAPE_CODE'' IContains (VString ''x''))
       = ''ESCAPE_CODE LIKE ?''
   \<and> \<not> sublist ''UPPER''
        (sql MySqlServer (QDjangoWhere_leaf ''ESCAPE_CODE'' IContains (VString ''x'')))"
proof -
  have h: "\<not> sublist ''UPPER'' ''ESCAPE_CODE''" by (simp add: sublist_Cons_right)
  show ?thesis
    using h icontains_per_dialect [of "''ESCAPE_CODE''" "''x''"]
    by (simp add: apostrophe_def backslash_def sublist_Cons_right)
qed

section \<open>Case-insensitive equality\<close>

text \<open>
  C9. A predicate whose operation is \<open>IEquals\<close> or \<open>INotEquals\<close> binds its value as
  it is, with no escaping, and its text is a \<open>LIKE\<close> or \<open>NOT LIKE\<close> comparison on
  every dialect: a \<open>%\<close> or \<open>_\<close> of the value reaches the database as a wildcard of
  the pattern.
\<close>

theorem iequals_binds_value_unescaped:
  "operation w = IEquals \<or> operation w = INotEquals \<Longrightarrow>
   bindValues w query = query @ [data w]
   \<and> sql db w =
       (let op = (if (operation w = INotEquals) = negate w then ''LIKE'' else ''NOT LIKE'')
        in if db = SQLite then
             key w @ '' '' @ op @ '' ? ESCAPE '' @ [apostrophe, backslash, apostrophe]
           else if db = PostgreSQL then
             ''UPPER('' @ key w @ ''::text) '' @ op @ '' UPPER(?)''
           else key w @ '' '' @ op @ '' ?'')"
  by (cases w) (auto simp add: addBindValue_def sql_ilike_def)

theorem iequals_binds_value_unescaped_witness:
  "bindValues (QDjangoWhere_leaf ''name'' IEquals (VString ''50%_off'')) []
     = [VString ''50%_off'']
   \<and> sql MySqlServer (QDjangoWhere_leaf ''name'' IEquals (VString ''50%_off''))
       = ''name LIKE ?''
   \<and> sql SQLite (operator_not (QDjangoWhere_leaf ''name'' IEquals (VString ''50%_off'')))
       = ''name NOT LIKE ? ESCAPE '' @ [CHR 0x27, CHR 0x5C, CHR 0x27]"
  using iequals_binds_value_unescaped
      [of "QDjangoWhere_leaf ''name'' IEquals (VString ''50%_off'')" "[]" MySqlServer]
    iequals_binds_value_unescaped
      [of "operator_not (QDjangoWhere_leaf ''name'' IEquals (VString ''50%_off''))" "[]" SQLite]
  by (simp add: QDjangoWhere_leaf_def apostrophe_def backslash_def)

section \<open>Membership in an empty sequence\<close>



end
